theory Spec2Isabelle
  imports Complex_Main
begin

section \<open>Python values\<close>

text \<open>
  The values that sqlite3 hands to Python, and that the cache uses as keys: None, int,
  float, str and bytes. Python's int is unbounded (\<open>int\<close>); a float is one of the
  finite ones, read as the real number it denotes (nan and the infinities are outside
  this model); str is \<open>string\<close>; bytes is a list of byte values. All of them are
  hashable, so each can be a dict key.
\<close>

datatype py_atom = PyNone | PyInt int | PyFloat real | PyStr string | PyBytes "nat list"

text \<open>
  Python's \<open>==\<close> on these values, which is what a dict uses to compare keys:
  an int equals the float of the same numeric value (\<open>1 == 1.0\<close>); values of
  otherwise different types are unequal.
\<close>

fun py_eq :: "py_atom \<Rightarrow> py_atom \<Rightarrow> bool" where
  "py_eq (PyInt i) (PyFloat x) = (real_of_int i = x)"
| "py_eq (PyFloat x) (PyInt i) = (x = real_of_int i)"
| "py_eq a b = (a = b)"

text \<open>
  What the cache stores and returns: any atom (None among them), or a dict with str keys
  such as the product record the loader builds. The dict is kept as the list of its items
  in insertion order.
\<close>

datatype py_value = Atom py_atom | Dict "(string \<times> py_atom) list"

text \<open>
  The exceptions the modelled code can raise: KeyError and IndexError of the dict and tuple
  primitives, sqlite3's OperationalError and OverflowError, and what a Flask handler gets
  from a missing form field (BadRequestKeyError) or from \<^verbatim>\<open>int()\<close> and
  \<^verbatim>\<open>float()\<close> on a string that is not a number (ValueError).
\<close>

datatype py_error =
    KeyError
  | IndexError
  | OperationalError
  | OverflowError
  | BadRequestKeyError
  | ValueError

section \<open>The dict primitives the cache uses\<close>

text \<open>
  A Python dict keyed by atoms: the list of its items in insertion order. Python keeps at
  most one item per key (up to \<open>==\<close>); \<open>dict_inv\<close> says so.
\<close>

type_synonym pydict = "(py_atom \<times> py_value) list"

text \<open>\<^verbatim>\<open>k in d\<close>\<close>

fun dict_contains :: "pydict \<Rightarrow> py_atom \<Rightarrow> bool" where
  "dict_contains [] k = False"
| "dict_contains ((k', v') # d) k = (py_eq k' k \<or> dict_contains d k)"

text \<open>\<^verbatim>\<open>d.get(k, default)\<close>: never raises.\<close>

fun dict_get :: "pydict \<Rightarrow> py_atom \<Rightarrow> py_value \<Rightarrow> py_value" where
  "dict_get [] k dflt = dflt"
| "dict_get ((k', v') # d) k dflt = (if py_eq k' k then v' else dict_get d k dflt)"

text \<open>
  \<^verbatim>\<open>d[k] = v\<close>: an existing item keeps its place and its key object and takes the new
  value; a new key is appended.
\<close>

fun dict_setitem :: "pydict \<Rightarrow> py_atom \<Rightarrow> py_value \<Rightarrow> pydict" where
  "dict_setitem [] k v = [(k, v)]"
| "dict_setitem ((k', v') # d) k v =
     (if py_eq k' k then (k', v) # d else (k', v') # dict_setitem d k v)"

text \<open>\<^verbatim>\<open>del d[k]\<close>: raises KeyError when the key is absent.\<close>

fun dict_delitem :: "pydict \<Rightarrow> py_atom \<Rightarrow> py_error + pydict" where
  "dict_delitem [] k = Inl KeyError"
| "dict_delitem ((k', v') # d) k =
     (if py_eq k' k then Inr d
      else (case dict_delitem d k of
              Inl e \<Rightarrow> Inl e
            | Inr d' \<Rightarrow> Inr ((k', v') # d')))"

text \<open>\<^verbatim>\<open>list(d.values())\<close> and \<^verbatim>\<open>list(d)\<close>\<close>

definition dict_values :: "pydict \<Rightarrow> py_value list" where
  "dict_values d = map snd d"

definition dict_keys :: "pydict \<Rightarrow> py_atom list" where
  "dict_keys d = map fst d"

fun dict_inv :: "pydict \<Rightarrow> bool" where
  "dict_inv [] = True"
| "dict_inv ((k, v) # d) = (\<not> dict_contains d k \<and> dict_inv d)"

section \<open>ProductHashTable\<close>

text \<open>
  \<^verbatim>\<open>
  class ProductHashTable:
      def __init__(self):
          self.table = {}
      def insert(self, product_id, product_data):
          self.table[product_id] = product_data
      def get(self, product_id):
          return self.table.get(product_id, None)
      def delete(self, product_id):
          if product_id in self.table:
              del self.table[product_id]
              return True
          return False
      def get_all(self):
          return list(self.table.values())
  \<close>
  The object is its one attribute; a method that mutates it returns the new object.
  Only \<open>delete\<close> uses a primitive that can raise, so only its result is a sum.
\<close>

record ProductHashTable =
  table :: pydict

definition ProductHashTable_init :: ProductHashTable where
  "ProductHashTable_init = \<lparr>table = []\<rparr>"

definition ProductHashTable_insert ::
  "ProductHashTable \<Rightarrow> py_atom \<Rightarrow> py_value \<Rightarrow> ProductHashTable" where
  "ProductHashTable_insert self product_id product_data =
     self\<lparr>table := dict_setitem (table self) product_id product_data\<rparr>"

definition ProductHashTable_get :: "ProductHashTable \<Rightarrow> py_atom \<Rightarrow> py_value" where
  "ProductHashTable_get self product_id = dict_get (table self) product_id (Atom PyNone)"

definition ProductHashTable_delete ::
  "ProductHashTable \<Rightarrow> py_atom \<Rightarrow> py_error + (bool \<times> ProductHashTable)" where
  "ProductHashTable_delete self product_id =
     (if dict_contains (table self) product_id then
        (case dict_delitem (table self) product_id of
           Inl e \<Rightarrow> Inl e
         | Inr d \<Rightarrow> Inr (True, self\<lparr>table := d\<rparr>))
      else Inr (False, self))"

definition ProductHashTable_get_all :: "ProductHashTable \<Rightarrow> py_value list" where
  "ProductHashTable_get_all self = dict_values (table self)"

text \<open>
  A caller's sequence of \<open>insert\<close> and \<open>delete\<close> calls on one cache, run in order;
  an exception ends the run, as an uncaught raise would.
\<close>

datatype cache_op = Insert py_atom py_value | Delete py_atom

fun op_key :: "cache_op \<Rightarrow> py_atom" where
  "op_key (Insert k v) = k"
| "op_key (Delete k) = k"

text \<open>What an operation leaves for \<open>get\<close> on the key it touched.\<close>

fun op_result :: "cache_op \<Rightarrow> py_value" where
  "op_result (Insert k v) = v"
| "op_result (Delete k) = Atom PyNone"

fun is_insert :: "cache_op \<Rightarrow> bool" where
  "is_insert (Insert k v) = True"
| "is_insert (Delete k) = False"

fun run_op :: "cache_op \<Rightarrow> ProductHashTable \<Rightarrow> py_error + ProductHashTable" where
  "run_op (Insert k v) c = Inr (ProductHashTable_insert c k v)"
| "run_op (Delete k) c =
     (case ProductHashTable_delete c k of
        Inl e \<Rightarrow> Inl e
      | Inr (b, c') \<Rightarrow> Inr c')"

fun run_ops :: "cache_op list \<Rightarrow> ProductHashTable \<Rightarrow> py_error + ProductHashTable" where
  "run_ops [] c = Inr c"
| "run_ops (x # xs) c =
     (case run_op x c of
        Inl e \<Rightarrow> Inl e
      | Inr c' \<Rightarrow> run_ops xs c')"

section \<open>The Persistent Store and the process state\<close>

text \<open>
  A row of \<^verbatim>\<open>SELECT * FROM products\<close> is a tuple; \<open>init_db\<close> declares its eleven
  columns (id, name, type, region, vintage, price, alcohol, stock, description, image_url,
  created_at). \<^verbatim>\<open>p[i]\<close> raises IndexError past the end of the tuple.
\<close>

type_synonym row = "py_atom list"

definition tuple_getitem :: "row \<Rightarrow> nat \<Rightarrow> py_error + py_atom" where
  "tuple_getitem p i = (if i < length p then Inr (p ! i) else Inl IndexError)"

text \<open>
  The database file: the rows of table \<open>products\<close> in the order a full scan yields
  them, and the AUTOINCREMENT counter SQLite keeps for the table (the largest id it has
  ever handed out).
\<close>

record database =
  products :: "row list"
  sequence :: int

text \<open>
  What the store does during one run of the loader: it answers, or \<^verbatim>\<open>sqlite3.connect\<close>
  raises (file unreachable), or \<^verbatim>\<open>c.execute\<close> raises (no such table, locked, corrupt),
  or \<^verbatim>\<open>c.fetchall\<close> raises. sqlite3 is a library, not code of this repository; its
  behaviour is this parameter.
\<close>

datatype fault = NoFault | ConnectFault | ExecuteFault | FetchFault

text \<open>
  The state one process sees: the database, the module-level \<open>product_cache\<close>, the
  number of sqlite3 connections that are open, and the messages flashed so far.
\<close>

datatype flash_message =
    PleaseLogInAsAdmin
  | ProductAdded
  | ProductUpdated
  | ProductNotFound
  | ProductDeleted py_atom

record world =
  db :: database
  product_cache :: ProductHashTable
  open_connections :: nat
  flashed :: "flash_message list"

definition sqlite3_connect :: "fault \<Rightarrow> world \<Rightarrow> (py_error + unit) \<times> world" where
  "sqlite3_connect f w =
     (if f = ConnectFault then (Inl OperationalError, w)
      else (Inr (), w\<lparr>open_connections := open_connections w + 1\<rparr>))"

definition execute_select_products :: "fault \<Rightarrow> world \<Rightarrow> (py_error + unit) \<times> world" where
  "execute_select_products f w =
     (if f = ExecuteFault then (Inl OperationalError, w) else (Inr (), w))"

definition fetchall :: "fault \<Rightarrow> world \<Rightarrow> (py_error + row list) \<times> world" where
  "fetchall f w =
     (if f = FetchFault then (Inl OperationalError, w) else (Inr (products (db w)), w))"

definition connection_close :: "world \<Rightarrow> world" where
  "connection_close w = w\<lparr>open_connections := open_connections w - 1\<rparr>"

section \<open>load_products_to_cache\<close>

text \<open>
  \<^verbatim>\<open>
  def load_products_to_cache():
      conn = sqlite3.connect(DB_PATH)
      c = conn.cursor()
      c.execute("SELECT * FROM products")
      products = c.fetchall()
      conn.close()

      product_cache.table.clear()
      for p in products:
          product_cache.insert(p[0], {
              'id': p[0], 'name': p[1], 'type': p[2], 'region': p[3], 'vintage': p[4],
              'price': p[5], 'alcohol': p[6], 'stock': p[7], 'description': p[8],
              'image_url': p[9]
          })
  \<close>
  The dict literal is evaluated entry by entry; \<open>product_fields\<close> is its list of keys
  with the tuple position each reads.
\<close>

definition product_fields :: "(string \<times> nat) list" where
  "product_fields =
     [(''id'', 0), (''name'', 1), (''type'', 2), (''region'', 3), (''vintage'', 4),
      (''price'', 5), (''alcohol'', 6), (''stock'', 7), (''description'', 8),
      (''image_url'', 9)]"

fun dict_literal :: "(string \<times> nat) list \<Rightarrow> row \<Rightarrow> py_error + (string \<times> py_atom) list" where
  "dict_literal [] p = Inr []"
| "dict_literal ((name, i) # fs) p =
     (case tuple_getitem p i of
        Inl e \<Rightarrow> Inl e
      | Inr v \<Rightarrow>
          (case dict_literal fs p of
             Inl e \<Rightarrow> Inl e
           | Inr items \<Rightarrow> Inr ((name, v) # items)))"

text \<open>The two arguments of the call to \<open>insert\<close>, evaluated left to right.\<close>

definition insert_arguments :: "row \<Rightarrow> py_error + (py_atom \<times> py_value)" where
  "insert_arguments p =
     (case tuple_getitem p 0 of
        Inl e \<Rightarrow> Inl e
      | Inr k \<Rightarrow>
          (case dict_literal product_fields p of
             Inl e \<Rightarrow> Inl e
           | Inr items \<Rightarrow> Inr (k, Dict items)))"

text \<open>
  The \<^verbatim>\<open>for\<close> loop. An exception leaves the loop with the cache as the rows before
  it filled it.
\<close>

fun fill_cache :: "row list \<Rightarrow> ProductHashTable \<Rightarrow> (py_error + unit) \<times> ProductHashTable" where
  "fill_cache [] c = (Inr (), c)"
| "fill_cache (p # ps) c =
     (case insert_arguments p of
        Inl e \<Rightarrow> (Inl e, c)
      | Inr (k, v) \<Rightarrow> fill_cache ps (ProductHashTable_insert c k v))"

definition load_products_to_cache :: "fault \<Rightarrow> world \<Rightarrow> (py_error + unit) \<times> world" where
  "load_products_to_cache f w =
     (case sqlite3_connect f w of
        (Inl e, w1) \<Rightarrow> (Inl e, w1)
      | (Inr u, w1) \<Rightarrow>
          (case execute_select_products f w1 of
             (Inl e, w2) \<Rightarrow> (Inl e, w2)
           | (Inr u, w2) \<Rightarrow>
               (case fetchall f w2 of
                  (Inl e, w3) \<Rightarrow> (Inl e, w3)
                | (Inr rows, w3) \<Rightarrow>
                    (let w4 = connection_close w3;
                         cleared = (product_cache w4)\<lparr>table := []\<rparr>;
                         (r, c) = fill_cache rows cleared
                     in (r, w4\<lparr>product_cache := c\<rparr>)))))"

section \<open>The admin handlers that change products\<close>

text \<open>
  The three routes read the request (method, form, session), talk to the database through
  \<open>get_db_connection\<close>, flash a message and answer with a redirect or a page. They
  are modelled on a store that answers every statement. Python's \<^verbatim>\<open>int()\<close> and
  \<^verbatim>\<open>float()\<close> on a form string are parameters (\<open>None\<close> for a string they
  reject), and so is the text SQLite writes for CURRENT_TIMESTAMP.
\<close>

datatype http_method = GET | POST

record request =
  request_method :: http_method
  form :: "(string \<times> string) list"
  admin_in_session :: bool

datatype response = Redirect string | RenderTemplate string

definition py_bind :: "py_error + 'a \<Rightarrow> ('a \<Rightarrow> py_error + 'b) \<Rightarrow> py_error + 'b" where
  "py_bind m f = (case m of Inl e \<Rightarrow> Inl e | Inr a \<Rightarrow> f a)"

text \<open>\<^verbatim>\<open>request.form[name]\<close> and \<^verbatim>\<open>request.form.get(name, default)\<close>\<close>

definition form_getitem :: "(string \<times> string) list \<Rightarrow> string \<Rightarrow> py_error + string" where
  "form_getitem fm name =
     (case map_of fm name of None \<Rightarrow> Inl BadRequestKeyError | Some s \<Rightarrow> Inr s)"

definition form_get :: "(string \<times> string) list \<Rightarrow> string \<Rightarrow> string \<Rightarrow> string" where
  "form_get fm name dflt = (case map_of fm name of None \<Rightarrow> dflt | Some s \<Rightarrow> s)"

definition convert :: "(string \<Rightarrow> 'a option) \<Rightarrow> string \<Rightarrow> py_error + 'a" where
  "convert parse s = (case parse s of None \<Rightarrow> Inl ValueError | Some a \<Rightarrow> Inr a)"

text \<open>
  \<^verbatim>\<open>
  data = (
      request.form['name'], request.form['type'], request.form['region'],
      int(request.form['vintage']), float(request.form['price']),
      float(request.form['alcohol']), int(request.form['stock']),
      request.form.get('description', ''), request.form.get('image_url', '')
  )
  \<close>
  The tuple is built left to right; the first failure is the exception raised.
\<close>

definition product_form_data ::
  "(string \<Rightarrow> int option) \<Rightarrow> (string \<Rightarrow> real option) \<Rightarrow> (string \<times> string) list
   \<Rightarrow> py_error + py_atom list" where
  "product_form_data py_int py_float fm =
     py_bind (form_getitem fm ''name'') (\<lambda>name.
     py_bind (form_getitem fm ''type'') (\<lambda>type.
     py_bind (form_getitem fm ''region'') (\<lambda>region.
     py_bind (py_bind (form_getitem fm ''vintage'') (convert py_int)) (\<lambda>vintage.
     py_bind (py_bind (form_getitem fm ''price'') (convert py_float)) (\<lambda>price.
     py_bind (py_bind (form_getitem fm ''alcohol'') (convert py_float)) (\<lambda>alcohol.
     py_bind (py_bind (form_getitem fm ''stock'') (convert py_int)) (\<lambda>stock.
       Inr [PyStr name, PyStr type, PyStr region, PyInt vintage, PyFloat price,
            PyFloat alcohol, PyInt stock, PyStr (form_get fm ''description'' []),
            PyStr (form_get fm ''image_url'' [])])))))))"

definition get_db_connection :: "world \<Rightarrow> world" where
  "get_db_connection w = w\<lparr>open_connections := open_connections w + 1\<rparr>"

definition flash :: "flash_message \<Rightarrow> world \<Rightarrow> world" where
  "flash m w = w\<lparr>flashed := flashed w @ [m]\<rparr>"

text \<open>
  sqlite3 binds a Python int as a 64-bit signed integer and raises OverflowError for one
  that does not fit.
\<close>

definition sqlite_int_ok :: "py_atom \<Rightarrow> bool" where
  "sqlite_int_ok a = (case a of PyInt n \<Rightarrow> - (2 ^ 63) \<le> n \<and> n < 2 ^ 63 | _ \<Rightarrow> True)"

text \<open>\<^verbatim>\<open>WHERE id=?\<close> with an int parameter\<close>

definition row_has_id :: "int \<Rightarrow> row \<Rightarrow> bool" where
  "row_has_id product_id p = (case p of [] \<Rightarrow> False | k # cols \<Rightarrow> py_eq k (PyInt product_id))"

text \<open>
  \<^verbatim>\<open>conn.execute('SELECT * FROM products WHERE id=?', (product_id,)).fetchone()\<close>:
  the first matching row, or None.
\<close>

definition select_product :: "int \<Rightarrow> database \<Rightarrow> py_error + row option" where
  "select_product product_id d =
     (if \<not> sqlite_int_ok (PyInt product_id) then Inl OverflowError
      else Inr (find (row_has_id product_id) (products d)))"

text \<open>
  \<^verbatim>\<open>INSERT INTO products (name, ..., image_url) VALUES (?, ..., ?)\<close> and the commit. The id
  is one more than the largest id the table holds or has ever handed out (AUTOINCREMENT);
  SQLite refuses the insert once that is the largest 64-bit integer. The eleventh column
  takes its default, the current timestamp.
\<close>

definition largest_id :: "database \<Rightarrow> int" where
  "largest_id d =
     fold (\<lambda>p m. case p of PyInt i # cols \<Rightarrow> max i m | _ \<Rightarrow> m) (products d) (sequence d)"

definition insert_product :: "string \<Rightarrow> py_atom list \<Rightarrow> database \<Rightarrow> py_error + database" where
  "insert_product now data d =
     (if \<not> list_all sqlite_int_ok data then Inl OverflowError
      else if largest_id d \<ge> 2 ^ 63 - 1 then Inl OperationalError
      else Inr (d\<lparr>products := products d @ [PyInt (largest_id d + 1) # data @ [PyStr now]],
                 sequence := largest_id d + 1\<rparr>))"

text \<open>
  \<^verbatim>\<open>UPDATE products SET name=?, ..., image_url=? WHERE id=?\<close> and the commit: columns
  1 to 9 of the matching row are replaced.
\<close>

definition update_product :: "py_atom list \<Rightarrow> int \<Rightarrow> database \<Rightarrow> py_error + database" where
  "update_product data product_id d =
     (if \<not> list_all sqlite_int_ok (data @ [PyInt product_id]) then Inl OverflowError
      else Inr (d\<lparr>products :=
                  map (\<lambda>p. if row_has_id product_id p then take 1 p @ data @ drop 10 p else p)
                    (products d)\<rparr>))"

text \<open>\<^verbatim>\<open>DELETE FROM products WHERE id=?\<close> and the commit\<close>

definition delete_row :: "int \<Rightarrow> database \<Rightarrow> database" where
  "delete_row product_id d =
     d\<lparr>products := filter (\<lambda>p. \<not> row_has_id product_id p) (products d)\<rparr>"

text \<open>
  \<^verbatim>\<open>
  def admin_required(f):
      def decorated(*args, **kwargs):
          if 'admin_id' not in session:
              flash('Please log in as admin.', 'error')
              return redirect(url_for('login'))
          return f(*args, **kwargs)
  \<close>
\<close>

definition admin_required ::
  "(request \<Rightarrow> world \<Rightarrow> (py_error + response) \<times> world)
   \<Rightarrow> request \<Rightarrow> world \<Rightarrow> (py_error + response) \<times> world" where
  "admin_required f req w =
     (if \<not> admin_in_session req then (Inr (Redirect ''login''), flash PleaseLogInAsAdmin w)
      else f req w)"

text \<open>
  \<^verbatim>\<open>
  def add_product():
      if request.method == 'POST':
          data = (...)
          conn = get_db_connection()
          conn.execute('INSERT INTO products ...', data)
          conn.commit()
          conn.close()
          flash('Product added successfully!', 'success')
          return redirect(url_for('products'))
      return render_template('admin/add_product.html')
  \<close>
\<close>

definition add_product ::
  "(string \<Rightarrow> int option) \<Rightarrow> (string \<Rightarrow> real option) \<Rightarrow> string
   \<Rightarrow> request \<Rightarrow> world \<Rightarrow> (py_error + response) \<times> world" where
  "add_product py_int py_float now =
     admin_required (\<lambda>req w.
       if request_method req = POST then
         (case product_form_data py_int py_float (form req) of
            Inl e \<Rightarrow> (Inl e, w)
          | Inr data \<Rightarrow>
              (let w1 = get_db_connection w in
               case insert_product now data (db w1) of
                 Inl e \<Rightarrow> (Inl e, w1)
               | Inr d \<Rightarrow>
                   (Inr (Redirect ''products''),
                    flash ProductAdded (connection_close (w1\<lparr>db := d\<rparr>)))))
       else (Inr (RenderTemplate ''admin/add_product.html''), w))"

text \<open>
  \<^verbatim>\<open>
  def edit_product(product_id):
      conn = get_db_connection()
      product = conn.execute('SELECT * FROM products WHERE id=?', (product_id,)).fetchone()
      if not product:
          flash('Product not found.', 'error')
          return redirect(url_for('products'))
      if request.method == 'POST':
          data = (..., product_id)
          conn.execute('UPDATE products SET ... WHERE id=?', data)
          conn.commit()
          conn.close()
          flash('Product updated successfully!', 'success')
          return redirect(url_for('products'))
      conn.close()
      return render_template('admin/edit_product.html', product=product)
  \<close>
  The early return for a product that is not there leaves the connection open.
\<close>

definition edit_product ::
  "(string \<Rightarrow> int option) \<Rightarrow> (string \<Rightarrow> real option) \<Rightarrow> int
   \<Rightarrow> request \<Rightarrow> world \<Rightarrow> (py_error + response) \<times> world" where
  "edit_product py_int py_float product_id =
     admin_required (\<lambda>req w.
       let w1 = get_db_connection w in
       case select_product product_id (db w1) of
         Inl e \<Rightarrow> (Inl e, w1)
       | Inr None \<Rightarrow> (Inr (Redirect ''products''), flash ProductNotFound w1)
       | Inr (Some product) \<Rightarrow>
           if request_method req = POST then
             (case product_form_data py_int py_float (form req) of
                Inl e \<Rightarrow> (Inl e, w1)
              | Inr data \<Rightarrow>
                  (case update_product data product_id (db w1) of
                     Inl e \<Rightarrow> (Inl e, w1)
                   | Inr d \<Rightarrow>
                       (Inr (Redirect ''products''),
                        flash ProductUpdated (connection_close (w1\<lparr>db := d\<rparr>)))))
           else (Inr (RenderTemplate ''admin/edit_product.html''), connection_close w1))"

text \<open>
  \<^verbatim>\<open>
  def delete_product(product_id):
      conn = get_db_connection()
      product = conn.execute('SELECT * FROM products WHERE id=?', (product_id,)).fetchone()
      if not product:
          flash('Product not found.', 'error')
          conn.close()
          return redirect(url_for('products'))
      conn.execute('DELETE FROM products WHERE id=?', (product_id,))
      conn.commit()
      conn.close()
      flash(f'Product "{product["name"]}" deleted successfully!', 'success')
      return redirect(url_for('products'))
  \<close>
  \<^verbatim>\<open>product["name"]\<close> is the second column of the row that was read.
\<close>

definition delete_product ::
  "int \<Rightarrow> request \<Rightarrow> world \<Rightarrow> (py_error + response) \<times> world" where
  "delete_product product_id =
     admin_required (\<lambda>req w.
       let w1 = get_db_connection w in
       case select_product product_id (db w1) of
         Inl e \<Rightarrow> (Inl e, w1)
       | Inr None \<Rightarrow>
           (Inr (Redirect ''products''), connection_close (flash ProductNotFound w1))
       | Inr (Some product) \<Rightarrow>
           (let w2 = connection_close (w1\<lparr>db := delete_row product_id (db w1)\<rparr>) in
            case tuple_getitem product 1 of
              Inl e \<Rightarrow> (Inl e, w2)
            | Inr name \<Rightarrow> (Inr (Redirect ''products''), flash (ProductDeleted name) w2)))"

section \<open>What the specification says, in its own words\<close>

text \<open>
  The record the specification prescribes for a store row: the fixed positional mapping
  (id, name, type, region, vintage, price, alcohol, stock, description, image reference);
  whatever follows position 9 (the creation timestamp) is not read.
\<close>

definition spec_record :: "row \<Rightarrow> py_value" where
  "spec_record p =
     Dict [(''id'', p ! 0), (''name'', p ! 1), (''type'', p ! 2), (''region'', p ! 3),
           (''vintage'', p ! 4), (''price'', p ! 5), (''alcohol'', p ! 6), (''stock'', p ! 7),
           (''description'', p ! 8), (''image_url'', p ! 9)]"

text \<open>
  A store row has the fixed shape when it has the ten columns the record reads (the
  schema's eleventh, and any further one, is ignored).
\<close>

definition fixed_shape :: "row \<Rightarrow> bool" where
  "fixed_shape p = (10 \<le> length p)"

text \<open>
  The product identifier is the table's PRIMARY KEY: no two rows of the store have equal
  identifiers.
\<close>

fun unique_ids :: "row list \<Rightarrow> bool" where
  "unique_ids [] = True"
| "unique_ids (p # ps) = (list_all (\<lambda>q. \<not> py_eq (p ! 0) (q ! 0)) ps \<and> unique_ids ps)"

definition store_rows_ok :: "row list \<Rightarrow> bool" where
  "store_rows_ok rows = (list_all fixed_shape rows \<and> unique_ids rows)"

text \<open>
  Last-write-wins, read off the sequence of operations alone: the last operation of the
  sequence that touched \<open>k\<close>, if any, and what \<open>get\<close> has to return after it.
\<close>

fun last_touching :: "py_atom \<Rightarrow> cache_op list \<Rightarrow> cache_op option" where
  "last_touching k [] = None"
| "last_touching k (x # xs) =
     (case last_touching k xs of
        Some y \<Rightarrow> Some y
      | None \<Rightarrow> (if py_eq (op_key x) k then Some x else None))"

definition spec_get :: "cache_op list \<Rightarrow> py_atom \<Rightarrow> py_value" where
  "spec_get xs k =
     (case last_touching k xs of
        None \<Rightarrow> Atom PyNone
      | Some (Insert k' v) \<Rightarrow> v
      | Some (Delete k') \<Rightarrow> Atom PyNone)"

text \<open>
  An identifier is present after a sequence of operations when it was inserted and not
  deleted afterwards.
\<close>

definition spec_present :: "cache_op list \<Rightarrow> py_atom \<Rightarrow> bool" where
  "spec_present xs k =
     (case last_touching k xs of
        None \<Rightarrow> False
      | Some (Insert k' v) \<Rightarrow> True
      | Some (Delete k') \<Rightarrow> False)"

text \<open>
  Counting distinct identifiers: one representative for each class of \<open>py_eq\<close>, a
  float with an integer value standing for that integer.
\<close>

definition py_key :: "py_atom \<Rightarrow> py_atom" where
  "py_key a =
     (case a of
        PyFloat x \<Rightarrow> (if real_of_int \<lfloor>x\<rfloor> = x then PyInt \<lfloor>x\<rfloor> else PyFloat x)
      | _ \<Rightarrow> a)"

text \<open>
  The \<open>id\<close> field of a cached record, when the value is a record that has one.
\<close>

definition id_field :: "py_value \<Rightarrow> py_atom option" where
  "id_field v = (case v of Atom a \<Rightarrow> None | Dict items \<Rightarrow> map_of items ''id'')"

text \<open>
  A dict is self-keyed when every value is a record whose \<open>id\<close> field equals the key
  it is stored under.
\<close>

definition self_keyed :: "pydict \<Rightarrow> bool" where
  "self_keyed d =
     list_all (\<lambda>(k, v). case id_field v of None \<Rightarrow> False | Some k0 \<Rightarrow> py_eq k0 k) d"

section \<open>The start state and the rows of the scenarios\<close>

text \<open>
  The state of a process that has just started on database \<open>d\<close>: the module-level
  \<^verbatim>\<open>product_cache = ProductHashTable()\<close> is empty, nothing is connected or flashed.
\<close>

definition process_start :: "database \<Rightarrow> world" where
  "process_start d =
     \<lparr>db = d, product_cache = ProductHashTable_init, open_connections = 0, flashed = []\<rparr>"

text \<open>
  A row of the shape \<open>init_db\<close> declares, for the concrete scenarios: identifier, name
  and price vary, the image is NULL.
\<close>

definition example_row :: "int \<Rightarrow> string \<Rightarrow> real \<Rightarrow> row" where
  "example_row i name price =
     [PyInt i, PyStr name, PyStr ''Red'', PyStr ''Bordeaux'', PyInt 2019, PyFloat price,
      PyFloat 13.5, PyInt 24, PyStr ''Soft'', PyNone, PyStr ''2025-01-01 10:00:00'']"

section \<open>Properties of the dict primitives\<close>

lemma py_eq_refl: "py_eq a a"
  by (cases a) simp_all

lemma py_eq_sym: "py_eq a b = py_eq b a"
  by (cases a; cases b) auto

lemma py_eq_trans: "py_eq a b \<Longrightarrow> py_eq b c \<Longrightarrow> py_eq a c"
  by (cases a; cases b; cases c) auto

lemma dict_contains_cong: "py_eq k k' \<Longrightarrow> dict_contains d k = dict_contains d k'"
proof (induction d)
  case Nil
  show ?case by simp
next
  case (Cons kv d)
  obtain k0 v0 where kv: "kv = (k0, v0)" by (cases kv)
  have "py_eq k0 k = py_eq k0 k'"
    using Cons.prems py_eq_trans py_eq_sym by blast
  with Cons kv show ?case by simp
qed

lemma dict_get_cong: "py_eq k k' \<Longrightarrow> dict_get d k dflt = dict_get d k' dflt"
proof (induction d)
  case Nil
  show ?case by simp
next
  case (Cons kv d)
  obtain k0 v0 where kv: "kv = (k0, v0)" by (cases kv)
  have "py_eq k0 k = py_eq k0 k'"
    using Cons.prems py_eq_trans py_eq_sym by blast
  with Cons kv show ?case by simp
qed

lemma dict_get_absent: "\<not> dict_contains d k \<Longrightarrow> dict_get d k dflt = dflt"
  by (induction d) auto

lemma dict_contains_setitem:
  "dict_contains (dict_setitem d k v) k' = (py_eq k k' \<or> dict_contains d k')"
proof (induction d)
  case Nil
  show ?case by simp
next
  case (Cons kv d)
  obtain k0 v0 where kv: "kv = (k0, v0)" by (cases kv)
  show ?case
  proof (cases "py_eq k0 k")
    case True
    then have "py_eq k0 k' = py_eq k k'"
      using py_eq_trans py_eq_sym by blast
    with True kv show ?thesis by auto
  next
    case False
    with Cons kv show ?thesis by auto
  qed
qed

lemma dict_get_setitem:
  "dict_get (dict_setitem d k v) k' dflt = (if py_eq k k' then v else dict_get d k' dflt)"
proof (induction d)
  case Nil
  show ?case by simp
next
  case (Cons kv d)
  obtain k0 v0 where kv: "kv = (k0, v0)" by (cases kv)
  show ?case
  proof (cases "py_eq k0 k")
    case True
    then have "py_eq k0 k' = py_eq k k'"
      using py_eq_trans py_eq_sym by blast
    with True kv show ?thesis by auto
  next
    case False
    then have "py_eq k0 k' \<Longrightarrow> \<not> py_eq k k'"
      using py_eq_trans py_eq_sym by blast
    with False Cons kv show ?thesis by auto
  qed
qed

lemma dict_inv_setitem: "dict_inv d \<Longrightarrow> dict_inv (dict_setitem d k v)"
proof (induction d)
  case Nil
  show ?case by simp
next
  case (Cons kv d)
  obtain k0 v0 where kv: "kv = (k0, v0)" by (cases kv)
  show ?case
  proof (cases "py_eq k0 k")
    case True
    with Cons.prems kv show ?thesis by simp
  next
    case False
    then have "\<not> py_eq k k0" by (simp add: py_eq_sym)
    with False Cons kv show ?thesis by (simp add: dict_contains_setitem)
  qed
qed

lemma dict_delitem_present:
  "dict_contains d k \<Longrightarrow> \<exists>d'. dict_delitem d k = Inr d'"
  by (induction d) (auto split: sum.splits)

lemma dict_delitem_absent: "\<not> dict_contains d k \<Longrightarrow> dict_delitem d k = Inl KeyError"
  by (induction d) auto

lemma dict_contains_delitem:
  "dict_inv d \<Longrightarrow> dict_delitem d k = Inr d' \<Longrightarrow>
   dict_contains d' k' = (dict_contains d k' \<and> \<not> py_eq k k')"
proof (induction d arbitrary: d')
  case Nil
  then show ?case by simp
next
  case (Cons kv d)
  obtain k0 v0 where kv: "kv = (k0, v0)" by (cases kv)
  show ?case
  proof (cases "py_eq k0 k")
    case True
    then have eq: "py_eq k0 k' = py_eq k k'"
      using py_eq_trans py_eq_sym by blast
    from True Cons.prems kv have d': "d' = d" and nin: "\<not> dict_contains d k0" by auto
    have "py_eq k k' \<Longrightarrow> \<not> dict_contains d k'"
      using nin dict_contains_cong [of k0 k' d] eq by simp
    with d' kv eq show ?thesis by auto
  next
    case False
    from False Cons.prems kv obtain d0 where
      d0: "dict_delitem d k = Inr d0" and d': "d' = (k0, v0) # d0"
      by (auto split: sum.splits)
    from Cons.prems kv have "dict_inv d" by simp
    from Cons.IH [OF this d0] have ih: "dict_contains d0 k' = (dict_contains d k' \<and> \<not> py_eq k k')" .
    have "py_eq k0 k' \<Longrightarrow> \<not> py_eq k k'"
      using False py_eq_trans py_eq_sym by blast
    with ih d' kv show ?thesis by auto
  qed
qed

lemma dict_get_delitem:
  "dict_inv d \<Longrightarrow> dict_delitem d k = Inr d' \<Longrightarrow>
   dict_get d' k' dflt = (if py_eq k k' then dflt else dict_get d k' dflt)"
proof (induction d arbitrary: d')
  case Nil
  then show ?case by simp
next
  case (Cons kv d)
  obtain k0 v0 where kv: "kv = (k0, v0)" by (cases kv)
  show ?case
  proof (cases "py_eq k0 k")
    case True
    then have eq: "py_eq k0 k' = py_eq k k'"
      using py_eq_trans py_eq_sym by blast
    from True Cons.prems kv have d': "d' = d" and nin: "\<not> dict_contains d k0" by auto
    have "py_eq k k' \<Longrightarrow> dict_get d k' dflt = dflt"
      using nin dict_contains_cong [of k0 k' d] eq dict_get_absent by simp
    with d' kv eq show ?thesis by auto
  next
    case False
    from False Cons.prems kv obtain d0 where
      d0: "dict_delitem d k = Inr d0" and d': "d' = (k0, v0) # d0"
      by (auto split: sum.splits)
    from Cons.prems kv have "dict_inv d" by simp
    from Cons.IH [OF this d0]
    have ih: "dict_get d0 k' dflt = (if py_eq k k' then dflt else dict_get d k' dflt)" .
    have "py_eq k0 k' \<Longrightarrow> \<not> py_eq k k'"
      using False py_eq_trans py_eq_sym by blast
    with ih d' kv show ?thesis by auto
  qed
qed

lemma dict_inv_delitem: "dict_inv d \<Longrightarrow> dict_delitem d k = Inr d' \<Longrightarrow> dict_inv d'"
proof (induction d arbitrary: d')
  case Nil
  then show ?case by simp
next
  case (Cons kv d)
  obtain k0 v0 where kv: "kv = (k0, v0)" by (cases kv)
  show ?case
  proof (cases "py_eq k0 k")
    case True
    with Cons.prems kv show ?thesis by auto
  next
    case False
    from False Cons.prems kv obtain d0 where
      d0: "dict_delitem d k = Inr d0" and d': "d' = (k0, v0) # d0"
      by (auto split: sum.splits)
    from Cons.prems kv have inv: "dict_inv d" and nin: "\<not> dict_contains d k0" by auto
    from dict_contains_delitem [OF inv d0, of k0] nin have "\<not> dict_contains d0 k0" by simp
    with Cons.IH [OF inv d0] d' show ?thesis by simp
  qed
qed

section \<open>Properties of the cache operations and of the loader\<close>


lemma table_insert [simp]:
  "table (ProductHashTable_insert c k v) = dict_setitem (table c) k v"
  by (simp add: ProductHashTable_insert_def)

lemma delete_present:
  "dict_contains (table c) k \<Longrightarrow>
   \<exists>d. dict_delitem (table c) k = Inr d \<and> ProductHashTable_delete c k = Inr (True, c\<lparr>table := d\<rparr>)"
  using dict_delitem_present [of "table c" k] by (auto simp: ProductHashTable_delete_def)

lemma delete_absent:
  "\<not> dict_contains (table c) k \<Longrightarrow> ProductHashTable_delete c k = Inr (False, c)"
  by (simp add: ProductHashTable_delete_def)

lemma run_op_effect:
  assumes inv: "dict_inv (table c)"
  shows "\<exists>c'. run_op x c = Inr c' \<and> dict_inv (table c') \<and>
           (\<forall>k. ProductHashTable_get c' k =
                  (if py_eq (op_key x) k then op_result x else ProductHashTable_get c k)) \<and>
           (\<forall>k. dict_contains (table c') k =
                  (if py_eq (op_key x) k then is_insert x else dict_contains (table c) k))"
proof (cases x)
  case (Insert k0 v0)
  then show ?thesis
    using inv
    by (simp add: ProductHashTable_get_def dict_get_setitem dict_contains_setitem dict_inv_setitem)
next
  case (Delete k0)
  show ?thesis
  proof (cases "dict_contains (table c) k0")
    case True
    from delete_present [OF True] obtain d where
      d: "dict_delitem (table c) k0 = Inr d" and
      del: "ProductHashTable_delete c k0 = Inr (True, c\<lparr>table := d\<rparr>)" by blast
    show ?thesis
      using Delete del dict_inv_delitem [OF inv d] dict_get_delitem [OF inv d]
        dict_contains_delitem [OF inv d]
      by (simp add: ProductHashTable_get_def)
  next
    case False
    have "\<And>k. py_eq k0 k \<Longrightarrow> \<not> dict_contains (table c) k"
      using False dict_contains_cong by blast
    then show ?thesis
      using Delete delete_absent [OF False] inv
      by (auto simp: ProductHashTable_get_def dict_get_absent)
  qed
qed

lemma run_ops_effect:
  "dict_inv (table c0) \<Longrightarrow>
   \<exists>c. run_ops xs c0 = Inr c \<and> dict_inv (table c) \<and>
     (\<forall>k. ProductHashTable_get c k =
            (case last_touching k xs of
               None \<Rightarrow> ProductHashTable_get c0 k
             | Some y \<Rightarrow> op_result y)) \<and>
     (\<forall>k. dict_contains (table c) k =
            (case last_touching k xs of
               None \<Rightarrow> dict_contains (table c0) k
             | Some y \<Rightarrow> is_insert y))"
proof (induction xs arbitrary: c0)
  case Nil
  then show ?case by simp
next
  case (Cons x xs)
  from run_op_effect [OF Cons.prems, of x] obtain c1 where
    c1: "run_op x c0 = Inr c1" and inv1: "dict_inv (table c1)" and
    g1: "\<And>k. ProductHashTable_get c1 k =
              (if py_eq (op_key x) k then op_result x else ProductHashTable_get c0 k)" and
    m1: "\<And>k. dict_contains (table c1) k =
              (if py_eq (op_key x) k then is_insert x else dict_contains (table c0) k)"
    by blast
  from Cons.IH [OF inv1] obtain c where
    c: "run_ops xs c1 = Inr c" and inv: "dict_inv (table c)" and
    g: "\<And>k. ProductHashTable_get c k =
            (case last_touching k xs of
               None \<Rightarrow> ProductHashTable_get c1 k
             | Some y \<Rightarrow> op_result y)" and
    m: "\<And>k. dict_contains (table c) k =
            (case last_touching k xs of
               None \<Rightarrow> dict_contains (table c1) k
             | Some y \<Rightarrow> is_insert y)"
    by blast
  have "run_ops (x # xs) c0 = Inr c" using c1 c by simp
  moreover have "\<forall>k. ProductHashTable_get c k =
            (case last_touching k (x # xs) of
               None \<Rightarrow> ProductHashTable_get c0 k
             | Some y \<Rightarrow> op_result y)"
    using g g1 by (auto split: option.splits)
  moreover have "\<forall>k. dict_contains (table c) k =
            (case last_touching k (x # xs) of
               None \<Rightarrow> dict_contains (table c0) k
             | Some y \<Rightarrow> is_insert y)"
    using m m1 by (auto split: option.splits)
  ultimately show ?case using inv by blast
qed


lemma tuple_getitem_ok: "i < length p \<Longrightarrow> tuple_getitem p i = Inr (p ! i)"
  by (simp add: tuple_getitem_def)

lemma insert_arguments_ok:
  "fixed_shape p \<Longrightarrow> insert_arguments p = Inr (p ! 0, spec_record p)"
  by (auto simp: insert_arguments_def product_fields_def spec_record_def fixed_shape_def
      tuple_getitem_def)

lemma dict_contains_append:
  "dict_contains (d @ e) k = (dict_contains d k \<or> dict_contains e k)"
  by (induction d) auto

lemma dict_setitem_fresh: "\<not> dict_contains d k \<Longrightarrow> dict_setitem d k v = d @ [(k, v)]"
  by (induction d) auto

lemma fill_cache_ok:
  "list_all fixed_shape rows \<Longrightarrow> unique_ids rows \<Longrightarrow>
   list_all (\<lambda>p. \<not> dict_contains (table c) (p ! 0)) rows \<Longrightarrow>
   fill_cache rows c =
     (Inr (), c\<lparr>table := table c @ map (\<lambda>p. (p ! 0, spec_record p)) rows\<rparr>)"
proof (induction rows arbitrary: c)
  case Nil
  then show ?case by simp
next
  case (Cons p ps)
  let ?c1 = "ProductHashTable_insert c (p ! 0) (spec_record p)"
  from Cons.prems have fresh: "\<not> dict_contains (table c) (p ! 0)" by simp
  then have t1: "table ?c1 = table c @ [(p ! 0, spec_record p)]"
    by (simp add: dict_setitem_fresh)
  have "list_all (\<lambda>q. \<not> dict_contains (table ?c1) (q ! 0)) ps"
    using Cons.prems by (auto simp: dict_contains_setitem list_all_iff)
  with Cons.prems have
    "fill_cache ps ?c1 =
       (Inr (), ?c1\<lparr>table := table ?c1 @ map (\<lambda>p. (p ! 0, spec_record p)) ps\<rparr>)"
    by (intro Cons.IH) simp_all
  moreover have "insert_arguments p = Inr (p ! 0, spec_record p)"
    using Cons.prems by (simp add: insert_arguments_ok)
  ultimately show ?case
    using t1 by (simp add: ProductHashTable_insert_def)
qed

lemma load_NoFault:
  "load_products_to_cache NoFault w =
     (let (r, c) = fill_cache (products (db w)) ((product_cache w)\<lparr>table := []\<rparr>)
      in (r, w\<lparr>product_cache := c\<rparr>))"
  by (simp add: load_products_to_cache_def sqlite3_connect_def execute_select_products_def
      fetchall_def connection_close_def Let_def split: prod.splits)

lemma load_ok:
  assumes "store_rows_ok (products (db w))"
  shows "load_products_to_cache NoFault w =
     (Inr (), w\<lparr>product_cache :=
        (product_cache w)\<lparr>table := map (\<lambda>p. (p ! 0, spec_record p)) (products (db w))\<rparr>\<rparr>)"
proof -
  let ?c0 = "(product_cache w)\<lparr>table := []\<rparr>"
  have "list_all (\<lambda>p. \<not> dict_contains (table ?c0) (p ! 0)) (products (db w))"
    by (simp add: list_all_iff)
  with assms have "fill_cache (products (db w)) ?c0 =
     (Inr (), ?c0\<lparr>table := table ?c0 @ map (\<lambda>p. (p ! 0, spec_record p)) (products (db w))\<rparr>)"
    by (intro fill_cache_ok) (simp_all add: store_rows_ok_def)
  then show ?thesis by (simp add: load_NoFault)
qed




lemma get_init: "ProductHashTable_get ProductHashTable_init k = Atom PyNone"
  by (simp add: ProductHashTable_get_def ProductHashTable_init_def)

lemma spec_get_alt:
  "spec_get xs k = (case last_touching k xs of None \<Rightarrow> Atom PyNone | Some y \<Rightarrow> op_result y)"
  by (simp add: spec_get_def split: option.splits cache_op.splits)

lemma spec_present_alt:
  "spec_present xs k = (case last_touching k xs of None \<Rightarrow> False | Some y \<Rightarrow> is_insert y)"
  by (simp add: spec_present_def split: option.splits cache_op.splits)

lemma run_ops_from_init:
  "\<exists>c. run_ops xs ProductHashTable_init = Inr c \<and> dict_inv (table c) \<and>
       (\<forall>k. ProductHashTable_get c k = spec_get xs k) \<and>
       (\<forall>k. dict_contains (table c) k = spec_present xs k)"
proof -
  have "dict_inv (table ProductHashTable_init)"
    by (simp add: ProductHashTable_init_def)
  from run_ops_effect [OF this, of xs] obtain c where
    c: "run_ops xs ProductHashTable_init = Inr c" "dict_inv (table c)" and
    g: "\<And>k. ProductHashTable_get c k =
            (case last_touching k xs of
               None \<Rightarrow> ProductHashTable_get ProductHashTable_init k
             | Some y \<Rightarrow> op_result y)" and
    m: "\<And>k. dict_contains (table c) k =
            (case last_touching k xs of
               None \<Rightarrow> dict_contains (table ProductHashTable_init) k
             | Some y \<Rightarrow> is_insert y)"
    by blast
  have "\<forall>k. ProductHashTable_get c k = spec_get xs k"
    using g by (simp add: spec_get_alt get_init split: option.splits)
  moreover have "\<forall>k. dict_contains (table c) k = spec_present xs k"
    using m by (simp add: spec_present_alt ProductHashTable_init_def split: option.splits)
  ultimately show ?thesis using c by blast
qed

text \<open>
  The dict invariant holds in every state the program reaches: the empty cache has it
  (\<open>run_ops_from_init\<close> carries it along every sequence of calls), and the loader
  keeps it, whether it succeeds, fails before the cache is touched, or stops inside the
  loop.
\<close>

lemma fill_cache_inv:
  "dict_inv (table c) \<Longrightarrow> dict_inv (table (snd (fill_cache rows c)))"
proof (induction rows arbitrary: c)
  case Nil
  then show ?case by simp
next
  case (Cons p ps)
  show ?case
  proof (cases "insert_arguments p")
    case (Inl e)
    with Cons.prems show ?thesis by simp
  next
    case (Inr kv)
    obtain k v where kv: "kv = (k, v)" by (cases kv)
    from Cons.prems have "dict_inv (table (ProductHashTable_insert c k v))"
      by (simp add: dict_inv_setitem)
    from Cons.IH [OF this] Inr kv show ?thesis by simp
  qed
qed

lemma load_keeps_dict_inv:
  assumes "dict_inv (table (product_cache w))"
  shows "dict_inv (table (product_cache (snd (load_products_to_cache f w))))"
proof (cases "f = NoFault")
  case True
  have "dict_inv (table ((product_cache w)\<lparr>table := []\<rparr>))" by simp
  from fill_cache_inv [OF this, of "products (db w)"] True show ?thesis
    by (auto simp: load_NoFault split: prod.splits)
next
  case False
  with assms show ?thesis
    by (cases f)
      (simp_all add: load_products_to_cache_def sqlite3_connect_def
        execute_select_products_def fetchall_def)
qed

section \<open>The claims about the Product Cache\<close>

text \<open>
  C3. Last-write-wins. Whatever sequence of \<open>insert\<close> and \<open>delete\<close> calls is run
  on the initially empty cache, the run ends without an exception, and \<open>get\<close> on any
  identifier then returns what the last call that touched the identifier left: the record of
  that \<open>insert\<close> (which overwrites whatever was there), and the not-found result None
  after a \<open>delete\<close> or when no call touched it.
\<close>

theorem last_write_wins:
  "\<exists>c. run_ops xs ProductHashTable_init = Inr c \<and> ProductHashTable_get c k = spec_get xs k"
  using run_ops_from_init [of xs] by blast

theorem last_write_wins_witness:
  "\<exists>c. run_ops [Insert (PyInt 1) (Atom (PyStr ''old'')), Insert (PyInt 2) (Atom (PyStr ''two'')),
                 Insert (PyInt 1) (Atom (PyStr ''new'')), Delete (PyInt 2)]
          ProductHashTable_init = Inr c \<and>
       ProductHashTable_get c (PyInt 1) = Atom (PyStr ''new'')"
  using last_write_wins
    [of "[Insert (PyInt 1) (Atom (PyStr ''old'')), Insert (PyInt 2) (Atom (PyStr ''two'')),
          Insert (PyInt 1) (Atom (PyStr ''new'')), Delete (PyInt 2)]" "PyInt 1"]
  by (simp add: spec_get_def)

text \<open>
  C4. \<open>delete\<close> on an identifier that is present returns True and removes its entry:
  the identifier is then absent, \<open>get\<close> on it returns None, every other identifier
  keeps its entry, and deleting again returns False without a change. \<open>delete\<close> on an
  identifier that is absent returns False and returns the cache as it was.
\<close>

theorem delete_removes_or_noop:
  assumes inv: "dict_inv (table c)"
  shows "(dict_contains (table c) k \<longrightarrow>
           (\<exists>c'. ProductHashTable_delete c k = Inr (True, c') \<and>
                 \<not> dict_contains (table c') k \<and>
                 ProductHashTable_get c' k = Atom PyNone \<and>
                 (\<forall>k'. \<not> py_eq k k' \<longrightarrow>
                        ProductHashTable_get c' k' = ProductHashTable_get c k' \<and>
                        dict_contains (table c') k' = dict_contains (table c) k') \<and>
                 ProductHashTable_delete c' k = Inr (False, c'))) \<and>
         (\<not> dict_contains (table c) k \<longrightarrow> ProductHashTable_delete c k = Inr (False, c))"
proof (intro conjI impI)
  assume present: "dict_contains (table c) k"
  from delete_present [OF present] obtain d where
    d: "dict_delitem (table c) k = Inr d" and
    del: "ProductHashTable_delete c k = Inr (True, c\<lparr>table := d\<rparr>)" by blast
  let ?c' = "c\<lparr>table := d\<rparr>"
  have gone: "\<not> dict_contains (table ?c') k"
    using dict_contains_delitem [OF inv d, of k] by (simp add: py_eq_refl)
  have "ProductHashTable_get ?c' k = Atom PyNone"
    using dict_get_delitem [OF inv d, of k] by (simp add: ProductHashTable_get_def py_eq_refl)
  moreover have "\<forall>k'. \<not> py_eq k k' \<longrightarrow>
      ProductHashTable_get ?c' k' = ProductHashTable_get c k' \<and>
      dict_contains (table ?c') k' = dict_contains (table c) k'"
    using dict_get_delitem [OF inv d] dict_contains_delitem [OF inv d]
    by (simp add: ProductHashTable_get_def)
  moreover have "ProductHashTable_delete ?c' k = Inr (False, ?c')"
    using gone by (rule delete_absent)
  ultimately show "\<exists>c'. ProductHashTable_delete c k = Inr (True, c') \<and>
                 \<not> dict_contains (table c') k \<and>
                 ProductHashTable_get c' k = Atom PyNone \<and>
                 (\<forall>k'. \<not> py_eq k k' \<longrightarrow>
                        ProductHashTable_get c' k' = ProductHashTable_get c k' \<and>
                        dict_contains (table c') k' = dict_contains (table c) k') \<and>
                 ProductHashTable_delete c' k = Inr (False, c')"
    using del gone by blast
next
  assume "\<not> dict_contains (table c) k"
  then show "ProductHashTable_delete c k = Inr (False, c)" by (rule delete_absent)
qed

theorem delete_removes_or_noop_witness:
  "dict_inv (table \<lparr>table = [(PyInt 1, Atom (PyStr ''a'')), (PyInt 2, Atom (PyStr ''b''))]\<rparr>) \<and>
   ProductHashTable_delete
     \<lparr>table = [(PyInt 1, Atom (PyStr ''a'')), (PyInt 2, Atom (PyStr ''b''))]\<rparr> (PyInt 1) =
     Inr (True, \<lparr>table = [(PyInt 2, Atom (PyStr ''b''))]\<rparr>) \<and>
   ProductHashTable_delete \<lparr>table = [(PyInt 2, Atom (PyStr ''b''))]\<rparr> (PyInt 1) =
     Inr (False, \<lparr>table = [(PyInt 2, Atom (PyStr ''b''))]\<rparr>) \<and>
   ProductHashTable_delete
     \<lparr>table = [(PyInt 1, Atom (PyStr ''a'')), (PyInt 2, Atom (PyStr ''b''))]\<rparr> (PyInt 7) =
     Inr (False, \<lparr>table = [(PyInt 1, Atom (PyStr ''a'')), (PyInt 2, Atom (PyStr ''b''))]\<rparr>)"
proof -
  let ?c = "\<lparr>table = [(PyInt 1, Atom (PyStr ''a'')), (PyInt 2, Atom (PyStr ''b''))]\<rparr>"
  have inv: "dict_inv (table ?c)" by simp
  have present: "dict_contains (table ?c) (PyInt 1)" by simp
  have absent: "\<not> dict_contains (table ?c) (PyInt 7)" by simp
  from delete_removes_or_noop [OF inv, of "PyInt 1"] present
  obtain c' where c': "ProductHashTable_delete ?c (PyInt 1) = Inr (True, c')"
    "ProductHashTable_delete c' (PyInt 1) = Inr (False, c')" by blast
  have "ProductHashTable_delete ?c (PyInt 1) = Inr (True, \<lparr>table = [(PyInt 2, Atom (PyStr ''b''))]\<rparr>)"
    by (simp add: ProductHashTable_delete_def)
  with c' have "c' = \<lparr>table = [(PyInt 2, Atom (PyStr ''b''))]\<rparr>" by simp
  with c' inv delete_removes_or_noop [OF inv, of "PyInt 7"] absent show ?thesis by simp
qed



lemma py_eq_iff_key: "py_eq a b = (py_key a = py_key b)"
  by (cases a; cases b) (auto simp: py_key_def)

lemma dict_contains_iff_key:
  "dict_contains d k = (py_key k \<in> py_key ` set (dict_keys d))"
  by (induction d) (auto simp: dict_keys_def py_eq_iff_key)

lemma dict_inv_distinct_keys: "dict_inv d \<Longrightarrow> distinct (map py_key (dict_keys d))"
proof (induction d)
  case Nil
  show ?case by (simp add: dict_keys_def)
next
  case (Cons kv d)
  obtain k v where kv: "kv = (k, v)" by (cases kv)
  with Cons.prems have "\<not> dict_contains d k" and "dict_inv d" by simp_all
  with Cons.IH kv show ?case
    by (simp add: dict_contains_iff_key dict_keys_def image_image)
qed

lemma key_image_contains:
  "py_key ` {k. dict_contains d k} = py_key ` set (dict_keys d)"
proof
  show "py_key ` {k. dict_contains d k} \<subseteq> py_key ` set (dict_keys d)"
    by (auto simp: dict_contains_iff_key)
next
  show "py_key ` set (dict_keys d) \<subseteq> py_key ` {k. dict_contains d k}"
  proof
    fix a
    assume "a \<in> py_key ` set (dict_keys d)"
    then obtain k where k: "k \<in> set (dict_keys d)" and a: "a = py_key k" by blast
    then have "dict_contains d k" by (auto simp: dict_contains_iff_key)
    with a show "a \<in> py_key ` {k. dict_contains d k}" by blast
  qed
qed

lemma get_all_length_card:
  assumes "dict_inv (table c)"
  shows "length (ProductHashTable_get_all c) = card (py_key ` {k. dict_contains (table c) k})"
proof -
  have "length (ProductHashTable_get_all c) = length (map py_key (dict_keys (table c)))"
    by (simp add: ProductHashTable_get_all_def dict_values_def dict_keys_def)
  also have "\<dots> = card (set (map py_key (dict_keys (table c))))"
    using distinct_card [OF dict_inv_distinct_keys [OF assms]] by simp
  also have "\<dots> = card (py_key ` {k. dict_contains (table c) k})"
    by (simp add: key_image_contains)
  finally show ?thesis .
qed

text \<open>
  C5. In every cache state the list \<open>get_all\<close> returns has as many elements as there
  are distinct identifiers in the cache (identifiers that Python's \<open>==\<close> identifies
  count once); and in the state reached from the empty cache through any sequence of
  \<open>insert\<close> and \<open>delete\<close> calls, the identifiers in the cache are exactly those that
  were inserted and not deleted afterwards, so the length is the number of those.
\<close>

theorem get_all_counts_present_identifiers:
  "(dict_inv (table c0) \<longrightarrow>
      length (ProductHashTable_get_all c0) = card (py_key ` {k. dict_contains (table c0) k})) \<and>
   (\<exists>c. run_ops xs ProductHashTable_init = Inr c \<and>
       (\<forall>k. dict_contains (table c) k = spec_present xs k) \<and>
       length (ProductHashTable_get_all c) = card (py_key ` {k. spec_present xs k}))"
proof -
  from run_ops_from_init [of xs] obtain c where
    c: "run_ops xs ProductHashTable_init = Inr c" and inv: "dict_inv (table c)" and
    m: "\<And>k. dict_contains (table c) k = spec_present xs k"
    by blast
  from get_all_length_card [OF inv] m
  have "length (ProductHashTable_get_all c) = card (py_key ` {k. spec_present xs k})"
    by simp
  with c m have "\<exists>c. run_ops xs ProductHashTable_init = Inr c \<and>
       (\<forall>k. dict_contains (table c) k = spec_present xs k) \<and>
       length (ProductHashTable_get_all c) = card (py_key ` {k. spec_present xs k})"
    by blast
  with get_all_length_card [of c0] show ?thesis by blast
qed

theorem get_all_counts_present_identifiers_witness:
  "run_ops [Insert (PyInt 1) (Atom (PyStr ''a'')), Insert (PyInt 2) (Atom (PyStr ''b'')),
            Insert (PyFloat 1) (Atom (PyStr ''c'')), Delete (PyInt 2), Insert (PyInt 3) (Atom PyNone)]
     ProductHashTable_init =
     Inr \<lparr>table = [(PyInt 1, Atom (PyStr ''c'')), (PyInt 3, Atom PyNone)]\<rparr> \<and>
   card (py_key ` {k. spec_present
     [Insert (PyInt 1) (Atom (PyStr ''a'')), Insert (PyInt 2) (Atom (PyStr ''b'')),
      Insert (PyFloat 1) (Atom (PyStr ''c'')), Delete (PyInt 2), Insert (PyInt 3) (Atom PyNone)] k}) = 2 \<and>
   dict_inv [(PyInt 1, Atom (PyStr ''c'')), (PyInt 3, Atom PyNone)] \<and>
   card (py_key ` {k. dict_contains [(PyInt 1, Atom (PyStr ''c'')), (PyInt 3, Atom PyNone)] k}) = 2"
proof -
  let ?xs = "[Insert (PyInt 1) (Atom (PyStr ''a'')), Insert (PyInt 2) (Atom (PyStr ''b'')),
      Insert (PyFloat 1) (Atom (PyStr ''c'')), Delete (PyInt 2), Insert (PyInt 3) (Atom PyNone)]"
  let ?c0 = "\<lparr>table = [(PyInt 1, Atom (PyStr ''c'')), (PyInt 3, Atom PyNone)]\<rparr>"
  have run: "run_ops ?xs ProductHashTable_init = Inr ?c0"
    by (simp add: ProductHashTable_init_def ProductHashTable_insert_def
        ProductHashTable_delete_def)
  have inv: "dict_inv [(PyInt 1, Atom (PyStr ''c'')), (PyInt 3, Atom PyNone)]" by simp
  note fact = get_all_counts_present_identifiers [of ?c0 ?xs]
  from fact obtain c where
    c: "run_ops ?xs ProductHashTable_init = Inr c" and
    n: "length (ProductHashTable_get_all c) = card (py_key ` {k. spec_present ?xs k})"
    by blast
  from c have "c = ?c0" unfolding run by simp
  then have "length (ProductHashTable_get_all c) = 2"
    by (simp add: ProductHashTable_get_all_def dict_values_def)
  with n have spec: "card (py_key ` {k. spec_present ?xs k}) = 2" by simp
  from fact inv have
    "length (ProductHashTable_get_all ?c0) = card (py_key ` {k. dict_contains (table ?c0) k})"
    by simp
  then have "card (py_key ` {k. dict_contains [(PyInt 1, Atom (PyStr ''c'')), (PyInt 3, Atom PyNone)] k}) = 2"
    by (simp add: ProductHashTable_get_all_def dict_values_def)
  with run spec inv show ?thesis by blast
qed

section \<open>The claims about the Cache Loader\<close>

text \<open>
  C1. When the store answers and holds N product rows of the fixed shape with pairwise
  different identifiers, the loader returns normally and \<open>get_all\<close> returns exactly N
  records, the i-th being the record of the i-th row under the positional mapping (id,
  name, type, region, vintage, price, alcohol, stock, description, image_url at positions
  0 to 9); the creation timestamp at position 10 is not read.
\<close>

theorem load_mirrors_store:
  assumes "store_rows_ok (products (db w))"
  shows "fst (load_products_to_cache NoFault w) = Inr () \<and>
         ProductHashTable_get_all (product_cache (snd (load_products_to_cache NoFault w))) =
           map spec_record (products (db w)) \<and>
         length (ProductHashTable_get_all (product_cache (snd (load_products_to_cache NoFault w)))) =
           length (products (db w))"
  using load_ok [OF assms]
  by (simp add: ProductHashTable_get_all_def dict_values_def comp_def)

theorem load_mirrors_store_witness:
  "store_rows_ok [example_row 1 ''Merlot'' 12.5] \<and>
   fst (load_products_to_cache NoFault
          (process_start \<lparr>products = [example_row 1 ''Merlot'' 12.5], sequence = 1\<rparr>)) = Inr () \<and>
   ProductHashTable_get_all (product_cache (snd (load_products_to_cache NoFault
          (process_start \<lparr>products = [example_row 1 ''Merlot'' 12.5], sequence = 1\<rparr>)))) =
     [Dict [(''id'', PyInt 1), (''name'', PyStr ''Merlot''), (''type'', PyStr ''Red''),
            (''region'', PyStr ''Bordeaux''), (''vintage'', PyInt 2019), (''price'', PyFloat 12.5),
            (''alcohol'', PyFloat 13.5), (''stock'', PyInt 24), (''description'', PyStr ''Soft''),
            (''image_url'', PyNone)]]"
proof -
  let ?w = "process_start \<lparr>products = [example_row 1 ''Merlot'' 12.5], sequence = 1\<rparr>"
  have ok: "store_rows_ok [example_row 1 ''Merlot'' 12.5]"
    by (simp add: store_rows_ok_def fixed_shape_def example_row_def)
  then have "store_rows_ok (products (db ?w))" by (simp add: process_start_def)
  from load_mirrors_store [OF this] ok show ?thesis
    by (simp add: process_start_def spec_record_def example_row_def)
qed

text \<open>
  C2. The loader replaces, it does not merge: whatever the cache held before, after a load
  from a store that answers the cache holds exactly one item per store row, keyed by the
  row's identifier, and nothing else. In particular a load that follows an earlier load
  (which read other store contents, or failed) leaves exactly the rows of the second store.
\<close>

theorem load_is_total_replace:
  assumes "store_rows_ok (products d)"
  shows "table (product_cache (snd (load_products_to_cache NoFault (w\<lparr>db := d\<rparr>)))) =
           map (\<lambda>p. (p ! 0, spec_record p)) (products d) \<and>
         table (product_cache (snd (load_products_to_cache NoFault
           ((snd (load_products_to_cache f w))\<lparr>db := d\<rparr>)))) =
           map (\<lambda>p. (p ! 0, spec_record p)) (products d)"
proof -
  have "\<And>w'. table (product_cache (snd (load_products_to_cache NoFault (w'\<lparr>db := d\<rparr>)))) =
           map (\<lambda>p. (p ! 0, spec_record p)) (products d)"
  proof -
    fix w' :: world
    from assms have "store_rows_ok (products (db (w'\<lparr>db := d\<rparr>)))" by simp
    from load_ok [OF this] show "table (product_cache (snd (load_products_to_cache NoFault (w'\<lparr>db := d\<rparr>)))) =
           map (\<lambda>p. (p ! 0, spec_record p)) (products d)" by simp
  qed
  then show ?thesis by blast
qed

theorem load_is_total_replace_witness:
  "store_rows_ok [example_row 3 ''Syrah'' 20, example_row 4 ''Malbec'' 15] \<and>
   dict_keys (table (product_cache (snd (load_products_to_cache NoFault
     ((snd (load_products_to_cache NoFault
        (process_start \<lparr>products = [example_row 1 ''Merlot'' 12.5, example_row 2 ''Pinot'' 30,
                                    example_row 3 ''Shiraz'' 18], sequence = 3\<rparr>)))
      \<lparr>db := \<lparr>products = [example_row 3 ''Syrah'' 20, example_row 4 ''Malbec'' 15],
               sequence = 4\<rparr>\<rparr>))))) = [PyInt 3, PyInt 4] \<and>
   ProductHashTable_get_all (product_cache (snd (load_products_to_cache NoFault
     ((snd (load_products_to_cache NoFault
        (process_start \<lparr>products = [example_row 1 ''Merlot'' 12.5, example_row 2 ''Pinot'' 30,
                                    example_row 3 ''Shiraz'' 18], sequence = 3\<rparr>)))
      \<lparr>db := \<lparr>products = [example_row 3 ''Syrah'' 20, example_row 4 ''Malbec'' 15],
               sequence = 4\<rparr>\<rparr>)))) =
     [spec_record (example_row 3 ''Syrah'' 20), spec_record (example_row 4 ''Malbec'' 15)]"
proof -
  let ?d = "\<lparr>products = [example_row 3 ''Syrah'' 20, example_row 4 ''Malbec'' 15], sequence = 4\<rparr>"
  have ok: "store_rows_ok [example_row 3 ''Syrah'' 20, example_row 4 ''Malbec'' 15]"
    by (simp add: store_rows_ok_def fixed_shape_def example_row_def)
  then have "store_rows_ok (products ?d)" by simp
  from load_is_total_replace [OF this] ok show ?thesis
    by (simp add: dict_keys_def ProductHashTable_get_all_def dict_values_def example_row_def)
qed

text \<open>
  C7. If the bulk read fails (the connection cannot be opened, or the query or the fetch
  raises), the loader propagates that error to its caller and the cache is exactly as it
  was before the call; the store is untouched as well.
\<close>

theorem load_failure_leaves_cache:
  assumes "f \<noteq> NoFault"
  shows "fst (load_products_to_cache f w) = Inl OperationalError \<and>
         product_cache (snd (load_products_to_cache f w)) = product_cache w \<and>
         db (snd (load_products_to_cache f w)) = db w"
  using assms
  by (cases f)
    (simp_all add: load_products_to_cache_def sqlite3_connect_def execute_select_products_def
      fetchall_def)

theorem load_failure_leaves_cache_witness:
  "fst (load_products_to_cache ExecuteFault
     (snd (load_products_to_cache NoFault
        (process_start \<lparr>products = [example_row 1 ''Merlot'' 12.5], sequence = 1\<rparr>)))) =
     Inl OperationalError \<and>
   ProductHashTable_get_all (product_cache (snd (load_products_to_cache ExecuteFault
     (snd (load_products_to_cache NoFault
        (process_start \<lparr>products = [example_row 1 ''Merlot'' 12.5], sequence = 1\<rparr>)))))) =
     [spec_record (example_row 1 ''Merlot'' 12.5)]"
proof -
  let ?w = "process_start \<lparr>products = [example_row 1 ''Merlot'' 12.5], sequence = 1\<rparr>"
  have "store_rows_ok (products (db ?w))"
    by (simp add: store_rows_ok_def fixed_shape_def example_row_def process_start_def)
  from load_ok [OF this]
  have "ProductHashTable_get_all (product_cache (snd (load_products_to_cache NoFault ?w))) =
      [spec_record (example_row 1 ''Merlot'' 12.5)]"
    by (simp add: ProductHashTable_get_all_def dict_values_def process_start_def)
  moreover have "ExecuteFault \<noteq> NoFault" by simp
  from load_failure_leaves_cache [OF this, of "snd (load_products_to_cache NoFault ?w)"]
  have "fst (load_products_to_cache ExecuteFault (snd (load_products_to_cache NoFault ?w))) =
      Inl OperationalError"
    "product_cache (snd (load_products_to_cache ExecuteFault
       (snd (load_products_to_cache NoFault ?w)))) =
     product_cache (snd (load_products_to_cache NoFault ?w))"
    by simp_all
  ultimately show ?thesis by simp
qed




lemma insert_arguments_id:
  "insert_arguments p = Inr (k, v) \<Longrightarrow> id_field v = Some k"
  by (auto simp: insert_arguments_def product_fields_def id_field_def
      split: sum.splits)

lemma self_keyed_setitem:
  "self_keyed d \<Longrightarrow> id_field v = Some k \<Longrightarrow> self_keyed (dict_setitem d k v)"
proof (induction d)
  case Nil
  then show ?case by (simp add: self_keyed_def py_eq_refl)
next
  case (Cons kv d)
  obtain k0 v0 where kv: "kv = (k0, v0)" by (cases kv)
  from Cons.prems kv have tl: "self_keyed d" by (simp add: self_keyed_def)
  show ?case
  proof (cases "py_eq k0 k")
    case True
    then have "py_eq k k0" by (simp add: py_eq_sym)
    with True Cons.prems kv show ?thesis by (simp add: self_keyed_def)
  next
    case False
    from Cons.IH [OF tl Cons.prems(2)] have "self_keyed (dict_setitem d k v)" .
    with False Cons.prems kv show ?thesis by (simp add: self_keyed_def)
  qed
qed

lemma fill_cache_self_keyed:
  "self_keyed (table c) \<Longrightarrow> self_keyed (table (snd (fill_cache rows c)))"
proof (induction rows arbitrary: c)
  case Nil
  then show ?case by simp
next
  case (Cons p ps)
  show ?case
  proof (cases "insert_arguments p")
    case (Inl e)
    with Cons.prems show ?thesis by simp
  next
    case (Inr kv)
    obtain k v where kv: "kv = (k, v)" by (cases kv)
    from Inr kv have "id_field v = Some k" by (simp add: insert_arguments_id)
    with Cons.prems have "self_keyed (table (ProductHashTable_insert c k v))"
      by (simp add: self_keyed_setitem)
    from Cons.IH [OF this] Inr kv show ?thesis by simp
  qed
qed

lemma self_keyed_get:
  "self_keyed d \<Longrightarrow> dict_contains d k \<Longrightarrow>
   \<exists>v. id_field (dict_get d k dflt) = Some v \<and> py_eq v k"
proof (induction d)
  case Nil
  then show ?case by simp
next
  case (Cons kv d)
  obtain k0 v0 where kv: "kv = (k0, v0)" by (cases kv)
  show ?case
  proof (cases "py_eq k0 k")
    case True
    from Cons.prems(1) kv obtain a where a: "id_field v0 = Some a" "py_eq a k0"
      by (auto simp: self_keyed_def split: option.splits)
    with True have "py_eq a k" using py_eq_trans by blast
    with a True kv show ?thesis by simp
  next
    case False
    with Cons kv show ?thesis by (simp add: self_keyed_def)
  qed
qed

lemma dict_get_own_row:
  "unique_ids rows \<Longrightarrow> p \<in> set rows \<Longrightarrow>
   dict_get (map (\<lambda>p. (p ! 0, spec_record p)) rows) (p ! 0) dflt = spec_record p"
proof (induction rows)
  case Nil
  then show ?case by simp
next
  case (Cons q qs)
  show ?case
  proof (cases "q = p")
    case True
    then show ?thesis by (simp add: py_eq_refl)
  next
    case False
    with Cons.prems have "p \<in> set qs" "\<not> py_eq (q ! 0) (p ! 0)" "unique_ids qs"
      by (auto simp: list_all_iff)
    with Cons.IH show ?thesis by simp
  qed
qed

lemma id_field_spec_record: "id_field (spec_record p) = Some (p ! 0)"
  by (simp add: id_field_def spec_record_def)

text \<open>
  C10. Right after a load from a store that answers, the cache is self-keyed: for every key
  \<open>k\<close> that is in the cache, \<open>get(k)\<close> returns a record whose \<open>id\<close> field
  equals \<open>k\<close> (Python's \<open>==\<close>), whatever the rows are; and when the rows have the
  fixed shape and pairwise different identifiers, the \<open>id\<close> field of the record under
  each stored key is that very key.
\<close>

theorem loaded_cache_is_self_keyed:
  "(dict_contains (table (product_cache (snd (load_products_to_cache NoFault w)))) k \<longrightarrow>
      (\<exists>v. id_field (ProductHashTable_get
                       (product_cache (snd (load_products_to_cache NoFault w))) k) = Some v \<and>
           py_eq v k)) \<and>
   (store_rows_ok (products (db w)) \<longrightarrow>
    k \<in> set (dict_keys (table (product_cache (snd (load_products_to_cache NoFault w))))) \<longrightarrow>
      id_field (ProductHashTable_get
                  (product_cache (snd (load_products_to_cache NoFault w))) k) = Some k)"
proof (intro conjI impI)
  let ?c = "product_cache (snd (load_products_to_cache NoFault w))"
  have "table ?c = table (snd (fill_cache (products (db w)) ((product_cache w)\<lparr>table := []\<rparr>)))"
    by (simp add: load_NoFault split: prod.splits)
  moreover have "self_keyed (table ((product_cache w)\<lparr>table := []\<rparr>))"
    by (simp add: self_keyed_def)
  ultimately have sk: "self_keyed (table ?c)"
    using fill_cache_self_keyed by metis
  assume "dict_contains (table ?c) k"
  with sk show "\<exists>v. id_field (ProductHashTable_get ?c k) = Some v \<and> py_eq v k"
    unfolding ProductHashTable_get_def by (rule self_keyed_get)
next
  let ?c = "product_cache (snd (load_products_to_cache NoFault w))"
  let ?rows = "products (db w)"
  assume ok: "store_rows_ok ?rows" and k: "k \<in> set (dict_keys (table ?c))"
  from load_ok [OF ok] have t: "table ?c = map (\<lambda>p. (p ! 0, spec_record p)) ?rows" by simp
  with k obtain p where p: "p \<in> set ?rows" "k = p ! 0"
    by (auto simp: dict_keys_def)
  from ok have "unique_ids ?rows" by (simp add: store_rows_ok_def)
  from dict_get_own_row [OF this p(1)] t p(2)
  show "id_field (ProductHashTable_get ?c k) = Some k"
    by (simp add: ProductHashTable_get_def id_field_spec_record)
qed

theorem loaded_cache_is_self_keyed_witness:
  "store_rows_ok [example_row 1 ''Merlot'' 12.5, example_row 2 ''Pinot'' 30] \<and>
   dict_keys (table (product_cache (snd (load_products_to_cache NoFault
     (process_start \<lparr>products = [example_row 1 ''Merlot'' 12.5, example_row 2 ''Pinot'' 30],
                     sequence = 2\<rparr>))))) = [PyInt 1, PyInt 2] \<and>
   id_field (ProductHashTable_get (product_cache (snd (load_products_to_cache NoFault
     (process_start \<lparr>products = [example_row 1 ''Merlot'' 12.5, example_row 2 ''Pinot'' 30],
                     sequence = 2\<rparr>)))) (PyInt 2)) = Some (PyInt 2)"
proof -
  let ?rows = "[example_row 1 ''Merlot'' 12.5, example_row 2 ''Pinot'' 30]"
  let ?w = "process_start \<lparr>products = ?rows, sequence = 2\<rparr>"
  let ?c = "product_cache (snd (load_products_to_cache NoFault ?w))"
  have ok: "store_rows_ok ?rows"
    by (simp add: store_rows_ok_def fixed_shape_def example_row_def)
  then have ok': "store_rows_ok (products (db ?w))" by (simp add: process_start_def)
  from load_ok [OF ok'] have keys: "dict_keys (table ?c) = [PyInt 1, PyInt 2]"
    by (simp add: dict_keys_def process_start_def example_row_def)
  then have "PyInt 2 \<in> set (dict_keys (table ?c))" by simp
  with loaded_cache_is_self_keyed [of ?w "PyInt 2"] ok'
  have "id_field (ProductHashTable_get ?c (PyInt 2)) = Some (PyInt 2)" by blast
  with ok keys show ?thesis by blast
qed

section \<open>The claim about the admin handlers\<close>

lemma add_product_cache:
  "product_cache (snd (add_product py_int py_float now req w)) = product_cache w"
  by (simp add: add_product_def admin_required_def flash_def connection_close_def
      get_db_connection_def Let_def split: sum.splits)

lemma edit_product_cache:
  "product_cache (snd (edit_product py_int py_float i req w)) = product_cache w"
  by (simp add: edit_product_def admin_required_def flash_def connection_close_def
      get_db_connection_def Let_def split: sum.splits option.splits)

lemma delete_product_cache:
  "product_cache (snd (delete_product i req w)) = product_cache w"
  by (simp add: delete_product_def admin_required_def flash_def connection_close_def
      get_db_connection_def Let_def split: sum.splits option.splits)

lemma find_filter_none: "find P (filter (\<lambda>x. \<not> P x) xs) = None"
  by (induction xs) auto

lemma delete_product_removes_row:
  assumes "admin_in_session req" "sqlite_int_ok (PyInt i)"
    "find (row_has_id i) (products (db w)) \<noteq> None"
  shows "select_product i (db (snd (delete_product i req w))) = Inr None"
  using assms
  by (auto simp: delete_product_def admin_required_def flash_def connection_close_def
      get_db_connection_def Let_def select_product_def delete_row_def find_filter_none
      split: sum.splits option.splits)

lemma row_has_id_iff: "row_has_id i p = (p \<noteq> [] \<and> py_eq (p ! 0) (PyInt i))"
  by (cases p) (simp_all add: row_has_id_def)

lemma find_row_by_id:
  "unique_ids rows \<Longrightarrow> p \<in> set rows \<Longrightarrow> p \<noteq> [] \<Longrightarrow> p ! 0 = PyInt i \<Longrightarrow>
   find (row_has_id i) rows = Some p"
proof (induction rows)
  case Nil
  then show ?case by simp
next
  case (Cons q qs)
  have hp: "row_has_id i p"
    using Cons.prems by (simp add: row_has_id_iff py_eq_refl)
  show ?case
  proof (cases "q = p")
    case True
    with hp show ?thesis by simp
  next
    case False
    with Cons.prems have "p \<in> set qs" "\<not> py_eq (q ! 0) (p ! 0)" "unique_ids qs"
      by (auto simp: list_all_iff)
    with Cons.prems Cons.IH show ?thesis by (simp add: row_has_id_iff)
  qed
qed

text \<open>
  C9. Adding, editing and deleting a product through the admin routes changes the store and
  never the cache: each handler returns the cache it was given, for every request and
  state. In particular, after a load from a store that holds product \<open>i\<close>, the admin's
  \<open>delete_product(i)\<close> removes the row from the store, and \<open>get(i)\<close> on the cache,
  with no reload, still returns the record that was loaded for it.
\<close>

theorem admin_mutations_leave_cache:
  assumes "store_rows_ok (products (db w))" and "p \<in> set (products (db w))"
    and "p ! 0 = PyInt i" and "sqlite_int_ok (PyInt i)" and "admin_in_session req"
  shows "product_cache (snd (add_product py_int py_float now req' w')) = product_cache w' \<and>
         product_cache (snd (edit_product py_int py_float j req' w')) = product_cache w' \<and>
         product_cache (snd (delete_product j req' w')) = product_cache w' \<and>
         select_product i (db (snd (load_products_to_cache NoFault w))) = Inr (Some p) \<and>
         select_product i
           (db (snd (delete_product i req (snd (load_products_to_cache NoFault w))))) = Inr None \<and>
         ProductHashTable_get
           (product_cache (snd (delete_product i req (snd (load_products_to_cache NoFault w)))))
           (PyInt i) = spec_record p"
proof -
  let ?w1 = "snd (load_products_to_cache NoFault w)"
  from assms(1) have u: "unique_ids (products (db w))" and
    sh: "list_all fixed_shape (products (db w))" by (simp_all add: store_rows_ok_def)
  from sh assms(2) have "p \<noteq> []" by (auto simp: list_all_iff fixed_shape_def)
  from find_row_by_id [OF u assms(2) this assms(3)]
  have found: "find (row_has_id i) (products (db w)) = Some p" .
  from load_ok [OF assms(1)] have
    t: "table (product_cache ?w1) = map (\<lambda>p. (p ! 0, spec_record p)) (products (db w))" and
    d: "db ?w1 = db w" by simp_all
  have before: "select_product i (db ?w1) = Inr (Some p)"
    using found d assms(4) by (simp add: select_product_def)
  from found d have "find (row_has_id i) (products (db ?w1)) \<noteq> None" by simp
  from delete_product_removes_row [OF assms(5) assms(4) this]
  have after: "select_product i (db (snd (delete_product i req ?w1))) = Inr None" .
  have "ProductHashTable_get (product_cache (snd (delete_product i req ?w1))) (PyInt i) =
      dict_get (map (\<lambda>p. (p ! 0, spec_record p)) (products (db w))) (p ! 0) (Atom PyNone)"
    using t assms(3) by (simp add: delete_product_cache ProductHashTable_get_def)
  also have "\<dots> = spec_record p"
    using u assms(2) by (rule dict_get_own_row)
  finally have stale:
    "ProductHashTable_get (product_cache (snd (delete_product i req ?w1))) (PyInt i) =
       spec_record p" .
  from before after stale show ?thesis
    by (simp add: add_product_cache edit_product_cache delete_product_cache)
qed

theorem admin_mutations_leave_cache_witness:
  "store_rows_ok [example_row 1 ''Merlot'' 12.5] \<and>
   select_product 1 (db (snd (delete_product 1
       \<lparr>request_method = POST, form = [], admin_in_session = True\<rparr>
       (snd (load_products_to_cache NoFault
          (process_start \<lparr>products = [example_row 1 ''Merlot'' 12.5], sequence = 1\<rparr>)))))) =
     Inr None \<and>
   ProductHashTable_get (product_cache (snd (delete_product 1
       \<lparr>request_method = POST, form = [], admin_in_session = True\<rparr>
       (snd (load_products_to_cache NoFault
          (process_start \<lparr>products = [example_row 1 ''Merlot'' 12.5], sequence = 1\<rparr>))))))
     (PyInt 1) =
     Dict [(''id'', PyInt 1), (''name'', PyStr ''Merlot''), (''type'', PyStr ''Red''),
           (''region'', PyStr ''Bordeaux''), (''vintage'', PyInt 2019), (''price'', PyFloat 12.5),
           (''alcohol'', PyFloat 13.5), (''stock'', PyInt 24), (''description'', PyStr ''Soft''),
           (''image_url'', PyNone)]"
proof -
  let ?p = "example_row 1 ''Merlot'' 12.5"
  let ?w = "process_start \<lparr>products = [?p], sequence = 1\<rparr>"
  let ?req = "\<lparr>request_method = POST, form = [], admin_in_session = True\<rparr>"
  have ok: "store_rows_ok [?p]"
    by (simp add: store_rows_ok_def fixed_shape_def example_row_def)
  then have 1: "store_rows_ok (products (db ?w))" by (simp add: process_start_def)
  have 2: "?p \<in> set (products (db ?w))" by (simp add: process_start_def)
  have 3: "?p ! 0 = PyInt 1" by (simp add: example_row_def)
  have 4: "sqlite_int_ok (PyInt 1)" by (simp add: sqlite_int_ok_def)
  have 5: "admin_in_session ?req" by simp
  note facts = admin_mutations_leave_cache [OF 1 2 3 4 5,
      where py_int = "\<lambda>s. None" and py_float = "\<lambda>s. None" and now = "[]" and j = 1
        and req' = ?req and w' = ?w]
  from facts have gone: "select_product 1
      (db (snd (delete_product 1 ?req (snd (load_products_to_cache NoFault ?w))))) = Inr None"
    by (elim conjE)
  from facts have "ProductHashTable_get
      (product_cache (snd (delete_product 1 ?req (snd (load_products_to_cache NoFault ?w)))))
      (PyInt 1) = spec_record ?p"
    by (elim conjE)
  then have stale: "ProductHashTable_get
      (product_cache (snd (delete_product 1 ?req (snd (load_products_to_cache NoFault ?w)))))
      (PyInt 1) =
     Dict [(''id'', PyInt 1), (''name'', PyStr ''Merlot''), (''type'', PyStr ''Red''),
           (''region'', PyStr ''Bordeaux''), (''vintage'', PyInt 2019), (''price'', PyFloat 12.5),
           (''alcohol'', PyFloat 13.5), (''stock'', PyInt 24), (''description'', PyStr ''Soft''),
           (''image_url'', PyNone)]"
    by (simp only: spec_record_def example_row_def) simp
  from ok gone stale show ?thesis by (intro conjI)
qed

end
